theory Spec2Isabelle
  imports
    Main
    "HOL-Library.Word"
    "HOL-Library.Char_ord"
    "HOL-Library.List_Lexorder"
    "HOL-Library.Multiset"
begin

section \<open>Wallet utilities of the Solana bot: loading keypair files from a directory\<close>

text \<open>
  The development embeds \<^verbatim>\<open>wallet_utils.py\<close> and \<^verbatim>\<open>wallet_utilsmac.py\<close>.
  The three functions of each module are translated statement by statement. What they
  call from outside the repository is modelled beside them: Python's exceptions as
  values of a sum type, the value \<^verbatim>\<open>json.loads\<close> returns as a datatype, \<^verbatim>\<open>bytes(list)\<close>,
  \<^verbatim>\<open>pathlib\<close> paths as their tuple of parts, and a filesystem of directories, files and
  dangling symbolic links. The \<^verbatim>\<open>solders\<close> library (\<^verbatim>\<open>Keypair.from_bytes\<close>, \<^verbatim>\<open>pubkey\<close>) is
  a parameter of every function.
\<close>

subsection \<open>Exceptions and JSON values\<close>

text \<open>
  An exception is its class and its message; \<open>exn_str\<close> is Python's \<^verbatim>\<open>str(exc)\<close>.
  \<open>LibraryError\<close> stands for every other subclass of \<^verbatim>\<open>Exception\<close> a library call
  raises (\<^verbatim>\<open>JSONDecodeError\<close>, \<^verbatim>\<open>UnicodeDecodeError\<close>, \<^verbatim>\<open>PermissionError\<close>, ...).
\<close>

datatype exn =
    ValueError string
  | TypeError string
  | FileNotFoundError string
  | IsADirectoryError string
  | RuntimeError string
  | LibraryError string

fun exn_str :: "exn \<Rightarrow> string" where
  "exn_str (ValueError m) = m"
| "exn_str (TypeError m) = m"
| "exn_str (FileNotFoundError m) = m"
| "exn_str (IsADirectoryError m) = m"
| "exn_str (RuntimeError m) = m"
| "exn_str (LibraryError m) = m"

text \<open>
  What \<^verbatim>\<open>json.loads\<close> returns: \<^verbatim>\<open>None\<close>, a \<^verbatim>\<open>bool\<close>, an \<^verbatim>\<open>int\<close> (unbounded), a
  \<^verbatim>\<open>float\<close> (kept as its literal), a \<^verbatim>\<open>str\<close>, a \<^verbatim>\<open>list\<close> or a \<^verbatim>\<open>dict\<close>.
\<close>

datatype json =
    JNull
  | JBool bool
  | JInt int
  | JFloat string
  | JStr string
  | JArr "json list"
  | JObj "(string \<times> json) list"

type_synonym byte = "8 word"

text \<open>
  \<^verbatim>\<open>bytes(raw)\<close> on a list: every item is read through \<^verbatim>\<open>__index__\<close> (which \<^verbatim>\<open>int\<close> and its
  subclass \<^verbatim>\<open>bool\<close> have, and no other JSON value), then checked against
  \<^verbatim>\<open>range(0, 256)\<close>; the first item that fails raises.
\<close>

definition not_an_integer :: "string \<Rightarrow> exn" where
  "not_an_integer tyname =
     TypeError ([CHR 0x27] @ tyname @ [CHR 0x27] @ '' object cannot be interpreted as an integer'')"

fun byte_of :: "json \<Rightarrow> exn + byte" where
  "byte_of (JInt n) =
     (if 0 \<le> n \<and> n < 256 then Inr (word_of_int n)
      else Inl (ValueError ''bytes must be in range(0, 256)''))"
| "byte_of (JBool b) = Inr (if b then 1 else 0)"
| "byte_of JNull = Inl (not_an_integer ''NoneType'')"
| "byte_of (JFloat _) = Inl (not_an_integer ''float'')"
| "byte_of (JStr _) = Inl (not_an_integer ''str'')"
| "byte_of (JArr _) = Inl (not_an_integer ''list'')"
| "byte_of (JObj _) = Inl (not_an_integer ''dict'')"

fun bytes_py :: "json list \<Rightarrow> exn + byte list" where
  "bytes_py [] = Inr []"
| "bytes_py (x # xs) =
     (case byte_of x of
        Inl e \<Rightarrow> Inl e
      | Inr b \<Rightarrow> (case bytes_py xs of Inl e \<Rightarrow> Inl e | Inr bs \<Rightarrow> Inr (b # bs)))"

text \<open>Python's \<^verbatim>\<open>str(n)\<close> for a length: the decimal digits.\<close>

fun str_nat :: "nat \<Rightarrow> string" where
  "str_nat n =
     (if n < 10 then [char_of (48 + n)]
      else str_nat (n div 10) @ [char_of (48 + n mod 10)])"

declare str_nat.simps [simp del]

subsection \<open>Paths and the filesystem\<close>

text \<open>
  A path is what \<^verbatim>\<open>pathlib\<close> keeps of it: the tuple \<^verbatim>\<open>parts\<close>. An absolute POSIX path has
  the part \<^verbatim>\<open>/\<close> first; \<^verbatim>\<open>Path(".")\<close> has no part. \<open>path_str\<close> is \<^verbatim>\<open>str(path)\<close>.
\<close>

type_synonym path = "string list"

fun join_parts :: "string list \<Rightarrow> string" where
  "join_parts [] = []"
| "join_parts [c] = c"
| "join_parts (c # d # cs) = c @ ''/'' @ join_parts (d # cs)"

definition path_str :: "path \<Rightarrow> string" where
  "path_str p =
     (case p of
        [] \<Rightarrow> ''.''
      | c # cs \<Rightarrow> if c = ''/'' then ''/'' @ join_parts cs else join_parts p)"

text \<open>
  A node of the filesystem is a directory with its entries in the order the operating
  system lists them, a file, or a symbolic link whose target is missing. A file is
  represented by what \<^verbatim>\<open>json.loads(path.read_text(encoding="utf-8"))\<close> evaluates to on
  it: the exception of either call, or the parsed value.
\<close>

datatype node =
    File "exn + json"
  | Dir "(string \<times> node) list"
  | Dangling

fun node_at :: "node \<Rightarrow> string list \<Rightarrow> node option" where
  "node_at n [] = Some n"
| "node_at (Dir es) (c # cs) =
     (case map_of es c of None \<Rightarrow> None | Some n \<Rightarrow> node_at n cs)"
| "node_at (File _) (c # cs) = None"
| "node_at Dangling (c # cs) = None"

text \<open>
  The state the functions read: the tree below \<^verbatim>\<open>/\<close>, the working directory (its parts
  below \<^verbatim>\<open>/\<close>) and the home directory of each user name (\<open>[]\<close> is the current user), as
  \<^verbatim>\<open>os.path.expanduser\<close> finds them.
\<close>

record filesystem =
  root :: node
  cwd :: "string list"
  homes :: "string \<Rightarrow> path option"

definition lookup :: "filesystem \<Rightarrow> path \<Rightarrow> node option" where
  "lookup fs p =
     (case p of
        [] \<Rightarrow> node_at (root fs) (cwd fs)
      | c # cs \<Rightarrow> if c = ''/'' then node_at (root fs) cs else node_at (root fs) (cwd fs @ p))"

text \<open>\<^verbatim>\<open>Path.exists()\<close> follows symbolic links, so a dangling link does not exist.\<close>

definition exists :: "filesystem \<Rightarrow> path \<Rightarrow> bool" where
  "exists fs p =
     (case lookup fs p of
        None \<Rightarrow> False
      | Some Dangling \<Rightarrow> False
      | Some (File _) \<Rightarrow> True
      | Some (Dir _) \<Rightarrow> True)"

definition py_repr :: "string \<Rightarrow> string" where
  "py_repr s = [CHR 0x27] @ s @ [CHR 0x27]"

text \<open>\<^verbatim>\<open>json.loads(path.read_text(encoding="utf-8"))\<close>.\<close>

definition read_json :: "filesystem \<Rightarrow> path \<Rightarrow> exn + json" where
  "read_json fs p =
     (case lookup fs p of
        None \<Rightarrow>
          Inl (FileNotFoundError (''[Errno 2] No such file or directory: '' @ py_repr (path_str p)))
      | Some Dangling \<Rightarrow>
          Inl (FileNotFoundError (''[Errno 2] No such file or directory: '' @ py_repr (path_str p)))
      | Some (Dir _) \<Rightarrow>
          Inl (IsADirectoryError (''[Errno 21] Is a directory: '' @ py_repr (path_str p)))
      | Some (File r) \<Rightarrow> r)"

text \<open>
  \<^verbatim>\<open>base.glob("**/*.json")\<close>: every entry below \<open>base\<close>, at any depth, whose name matches
  \<^verbatim>\<open>*.json\<close>, whatever kind of node it is; only directories are descended into. The
  pattern \<^verbatim>\<open>*\<close> of \<^verbatim>\<open>pathlib\<close> also matches a leading dot, and matching is case-sensitive
  on POSIX.
\<close>

definition json_name :: "string \<Rightarrow> bool" where
  "json_name n = (5 \<le> length n \<and> drop (length n - 5) n = ''.json'')"

fun walk :: "path \<Rightarrow> node \<Rightarrow> path list"
  and walks :: "path \<Rightarrow> (string \<times> node) list \<Rightarrow> path list" where
  "walk p (File _) = []"
| "walk p Dangling = []"
| "walk p (Dir es) = walks p es"
| "walks p [] = []"
| "walks p ((n, nd) # es) =
     (if json_name n then [p @ [n]] else []) @ walk (p @ [n]) nd @ walks p es"

definition glob :: "filesystem \<Rightarrow> path \<Rightarrow> path list" where
  "glob fs base = (case lookup fs base of Some (Dir es) \<Rightarrow> walks base es | _ \<Rightarrow> [])"

subsection \<open>The solders library\<close>

text \<open>
  \<^verbatim>\<open>Keypair.from_bytes\<close> and \<^verbatim>\<open>str(kp.pubkey())\<close> belong to the \<^verbatim>\<open>solders\<close> package, not to
  the repository: they are parameters, and \<open>'kp\<close> is the type of its keypairs.
\<close>

record 'kp solders =
  from_bytes :: "byte list \<Rightarrow> exn + 'kp"
  pubkey_str :: "'kp \<Rightarrow> string"

subsection \<open>wallet\_utils.py\<close>

definition load_keypair_from_json :: "'kp solders \<Rightarrow> filesystem \<Rightarrow> path \<Rightarrow> exn + 'kp" where
  "load_keypair_from_json lib fs json_path =
     (case read_json fs json_path of
        Inl e \<Rightarrow> Inl e
      | Inr raw \<Rightarrow>
          (case raw of
             JArr xs \<Rightarrow>
               (case bytes_py xs of
                  Inl e \<Rightarrow> Inl e
                | Inr secret_key_bytes \<Rightarrow>
                    if length secret_key_bytes \<noteq> 64 \<and> length secret_key_bytes \<noteq> 32
                    then Inl (ValueError (''Unexpected secret key length ''
                           @ str_nat (length secret_key_bytes) @ '' in '' @ path_str json_path))
                    else from_bytes lib secret_key_bytes)
           | _ \<Rightarrow>
               Inl (ValueError (''Invalid key file format (expected array): ''
                      @ path_str json_path))))"

text \<open>
  The loop of \<^verbatim>\<open>load_all_wallets\<close>. Its state is the list \<^verbatim>\<open>keypairs\<close> and the lines
  printed so far; \<^verbatim>\<open>except Exception\<close> catches every exception of the model.
\<close>

fun load_loop ::
  "'kp solders \<Rightarrow> filesystem \<Rightarrow> path list \<Rightarrow> 'kp list \<times> string list \<Rightarrow> 'kp list \<times> string list"
where
  "load_loop lib fs [] st = st"
| "load_loop lib fs (json_file # rest) (keypairs, out) =
     (case load_keypair_from_json lib fs json_file of
        Inr kp \<Rightarrow> load_loop lib fs rest (keypairs @ [kp], out)
      | Inl exc \<Rightarrow>
          load_loop lib fs rest
            (keypairs,
             out @ [''Failed to load '' @ path_str json_file @ '': '' @ exn_str exc]))"

text \<open>\<open>wallets_dir\<close> is \<^verbatim>\<open>Path(wallets_dir)\<close>; the result is the list returned and the output.\<close>

definition load_all_wallets ::
  "'kp solders \<Rightarrow> filesystem \<Rightarrow> path \<Rightarrow> 'kp list \<times> string list" where
  "load_all_wallets lib fs wallets_dir =
     (if \<not> exists fs wallets_dir then ([], [])
      else load_loop lib fs (sort (glob fs wallets_dir)) ([], []))"

fun list_loop ::
  "'kp solders \<Rightarrow> filesystem \<Rightarrow> path list \<Rightarrow> (string \<times> string) list \<Rightarrow> (string \<times> string) list"
where
  "list_loop lib fs [] results = results"
| "list_loop lib fs (json_file # rest) results =
     (case load_keypair_from_json lib fs json_file of
        Inr kp \<Rightarrow>
          list_loop lib fs rest (results @ [(path_str json_file, pubkey_str lib kp)])
      | Inl exc \<Rightarrow>
          list_loop lib fs rest
            (results @ [(path_str json_file, ''<error: '' @ exn_str exc @ ''>'')]))"

definition list_public_keys_with_paths ::
  "'kp solders \<Rightarrow> filesystem \<Rightarrow> path \<Rightarrow> (string \<times> string) list" where
  "list_public_keys_with_paths lib fs wallets_dir =
     (if \<not> exists fs wallets_dir then []
      else list_loop lib fs (sort (glob fs wallets_dir)) [])"

text \<open>
  How the docstring of \<^verbatim>\<open>list_public_keys_with_paths\<close> tells a failed entry from a loaded
  one: \<^verbatim>\<open>pubkey.startswith("<error:")\<close>.
\<close>

definition is_error_marker :: "string \<Rightarrow> bool" where
  "is_error_marker s = (take 7 s = ''<error:'')"

subsection \<open>wallet\_utilsmac.py\<close>

text \<open>
  \<^verbatim>\<open>Path.expanduser()\<close>: a relative path whose first part begins with \<^verbatim>\<open>~\<close> has that part
  replaced by the home directory of the user named after the \<^verbatim>\<open>~\<close>; when there is none,
  \<^verbatim>\<open>RuntimeError\<close> is raised. Every other path is returned as it is.
\<close>

definition expanduser :: "filesystem \<Rightarrow> path \<Rightarrow> exn + path" where
  "expanduser fs p =
     (case p of
        [] \<Rightarrow> Inr p
      | c # cs \<Rightarrow>
          if take 1 c = ''~'' then
            (case homes fs (drop 1 c) of
               None \<Rightarrow> Inl (RuntimeError ''Could not determine home directory.'')
             | Some h \<Rightarrow> Inr (h @ cs))
          else Inr p)"

definition load_keypair_from_json_mac ::
  "'kp solders \<Rightarrow> filesystem \<Rightarrow> path \<Rightarrow> exn + 'kp" where
  "load_keypair_from_json_mac lib fs json_path =
     (case expanduser fs json_path of
        Inl e \<Rightarrow> Inl e
      | Inr path \<Rightarrow>
          if \<not> exists fs path
          then Inl (FileNotFoundError (''Wallet file not found: '' @ path_str path))
          else
            (case read_json fs path of
               Inl e \<Rightarrow> Inl e
             | Inr raw \<Rightarrow>
                 (case raw of
                    JArr xs \<Rightarrow>
                      (case bytes_py xs of
                         Inl e \<Rightarrow> Inl e
                       | Inr secret_key_bytes \<Rightarrow>
                           if length secret_key_bytes \<noteq> 64 \<and> length secret_key_bytes \<noteq> 32
                           then Inl (ValueError (''Unexpected secret key length ''
                                  @ str_nat (length secret_key_bytes) @ '' in '' @ path_str path))
                           else from_bytes lib secret_key_bytes)
                  | _ \<Rightarrow>
                      Inl (ValueError (''Invalid key file format (expected array): ''
                             @ path_str path)))))"

fun load_loop_mac ::
  "'kp solders \<Rightarrow> filesystem \<Rightarrow> path list \<Rightarrow> 'kp list \<times> string list \<Rightarrow> 'kp list \<times> string list"
where
  "load_loop_mac lib fs [] st = st"
| "load_loop_mac lib fs (json_file # rest) (keypairs, out) =
     (case load_keypair_from_json_mac lib fs json_file of
        Inr kp \<Rightarrow> load_loop_mac lib fs rest (keypairs @ [kp], out)
      | Inl exc \<Rightarrow>
          load_loop_mac lib fs rest
            (keypairs,
             out @ [''Failed to load '' @ path_str json_file @ '': '' @ exn_str exc]))"

text \<open>
  In this module \<^verbatim>\<open>Path(wallets_dir).expanduser()\<close> is evaluated outside any \<^verbatim>\<open>try\<close>, so
  both directory functions can raise.
\<close>

definition load_all_wallets_mac ::
  "'kp solders \<Rightarrow> filesystem \<Rightarrow> path \<Rightarrow> exn + 'kp list \<times> string list" where
  "load_all_wallets_mac lib fs wallets_dir =
     (case expanduser fs wallets_dir of
        Inl e \<Rightarrow> Inl e
      | Inr base \<Rightarrow>
          if \<not> exists fs base then Inr ([], [])
          else Inr (load_loop_mac lib fs (sort (glob fs base)) ([], [])))"

fun list_loop_mac ::
  "'kp solders \<Rightarrow> filesystem \<Rightarrow> path list \<Rightarrow> (string \<times> string) list \<Rightarrow> (string \<times> string) list"
where
  "list_loop_mac lib fs [] results = results"
| "list_loop_mac lib fs (json_file # rest) results =
     (case load_keypair_from_json_mac lib fs json_file of
        Inr kp \<Rightarrow>
          list_loop_mac lib fs rest (results @ [(path_str json_file, pubkey_str lib kp)])
      | Inl exc \<Rightarrow>
          list_loop_mac lib fs rest
            (results @ [(path_str json_file, ''<error: '' @ exn_str exc @ ''>'')]))"

definition list_public_keys_with_paths_mac ::
  "'kp solders \<Rightarrow> filesystem \<Rightarrow> path \<Rightarrow> exn + (string \<times> string) list" where
  "list_public_keys_with_paths_mac lib fs wallets_dir =
     (case expanduser fs wallets_dir of
        Inl e \<Rightarrow> Inl e
      | Inr base \<Rightarrow>
          if \<not> exists fs base then Inr []
          else Inr (list_loop_mac lib fs (sort (glob fs base)) []))"

subsection \<open>Notions used in the statements\<close>

text \<open>
  One turn of the loop of \<^verbatim>\<open>list_public_keys_with_paths\<close>: the pair appended for
  \<open>json_file\<close>, by the \<^verbatim>\<open>try\<close> branch or by the \<^verbatim>\<open>except\<close> branch.
\<close>

definition entry :: "'kp solders \<Rightarrow> filesystem \<Rightarrow> path \<Rightarrow> string \<times> string" where
  "entry lib fs json_file =
     (case load_keypair_from_json lib fs json_file of
        Inr kp \<Rightarrow> (path_str json_file, pubkey_str lib kp)
      | Inl exc \<Rightarrow> (path_str json_file, ''<error: '' @ exn_str exc @ ''>''))"

text \<open>
  One turn of the loop of \<^verbatim>\<open>load_all_wallets\<close>: what it appends to \<^verbatim>\<open>keypairs\<close> and
  what it prints.
\<close>

definition loaded :: "'kp solders \<Rightarrow> filesystem \<Rightarrow> path \<Rightarrow> 'kp list" where
  "loaded lib fs p = (case load_keypair_from_json lib fs p of Inr kp \<Rightarrow> [kp] | Inl _ \<Rightarrow> [])"

definition failure_line :: "'kp solders \<Rightarrow> filesystem \<Rightarrow> path \<Rightarrow> string list" where
  "failure_line lib fs p =
     (case load_keypair_from_json lib fs p of
        Inr kp \<Rightarrow> []
      | Inl exc \<Rightarrow> [''Failed to load '' @ path_str p @ '': '' @ exn_str exc])"

text \<open>
  A well-formed key file, in the words of the specification: the file parses to a
  sequence of integers, each in \<open>[0, 255]\<close>, of length 32 or 64. Whether the bytes are a
  keypair the library accepts is not part of it.
\<close>

definition byte_value :: "json \<Rightarrow> bool" where
  "byte_value j = (case j of JInt n \<Rightarrow> 0 \<le> n \<and> n < 256 | _ \<Rightarrow> False)"

definition well_formed :: "filesystem \<Rightarrow> path \<Rightarrow> bool" where
  "well_formed fs p =
     (case lookup fs p of
        Some (File (Inr (JArr xs))) \<Rightarrow>
          list_all byte_value xs \<and> (length xs = 32 \<or> length xs = 64)
      | _ \<Rightarrow> False)"

text \<open>
  Two filesystems have the same contents when their trees differ only in the order in
  which the directories list their entries: \<open>canonical\<close> lists every directory in the
  order of the names, and the names of a directory are distinct.
\<close>

fun canonical :: "node \<Rightarrow> node"
  and canonicals :: "(string \<times> node) list \<Rightarrow> (string \<times> node) list" where
  "canonical (File r) = File r"
| "canonical Dangling = Dangling"
| "canonical (Dir es) = Dir (sort_key fst (canonicals es))"
| "canonicals [] = []"
| "canonicals ((n, nd) # es) = (n, canonical nd) # canonicals es"

fun names_ok :: "node \<Rightarrow> bool"
  and names_oks :: "(string \<times> node) list \<Rightarrow> bool" where
  "names_ok (File r) = True"
| "names_ok Dangling = True"
| "names_ok (Dir es) = (distinct (map fst es) \<and> names_oks es)"
| "names_oks [] = True"
| "names_oks ((n, nd) # es) = (names_ok nd \<and> names_oks es)"

definition same_contents :: "filesystem \<Rightarrow> filesystem \<Rightarrow> bool" where
  "same_contents fs fs' =
     (names_ok (root fs) \<and> names_ok (root fs')
      \<and> canonical (root fs) = canonical (root fs') \<and> cwd fs = cwd fs')"

text \<open>The test of \<^verbatim>\<open>Path.expanduser\<close>: the path has a first part and it begins with \<^verbatim>\<open>~\<close>.\<close>

definition tilde :: "path \<Rightarrow> bool" where
  "tilde p = (case p of [] \<Rightarrow> False | c # cs \<Rightarrow> take 1 c = ''~'')"

text \<open>
  Modelled from the spec: the lookup \<^verbatim>\<open>get(pubkey)\<close> of the Keystore, which the source does
  not have (no function of the three modules takes a public key). The specification
  says that \<^verbatim>\<open>get(pubkey)\<close> "returns the first successfully loaded match in scan order";
  here it runs over the ordered entries that \<^verbatim>\<open>list_public_keys_with_paths\<close> returns.
\<close>

definition get :: "(string \<times> string) list \<Rightarrow> string \<Rightarrow> (string \<times> string) option" where
  "get entries pubkey = find (\<lambda>e. snd e = pubkey \<and> \<not> is_error_marker (snd e)) entries"

subsection \<open>A reference instance of the library and sample directories\<close>

text \<open>
  The theorems below hold for every instance of the library interface. To evaluate the
  functions on concrete directories, \<open>solders64\<close> follows the documented contract of
  \<^verbatim>\<open>solders\<close>: \<^verbatim>\<open>Keypair.from_bytes\<close> takes a 64-byte keypair (a 32-byte seed is the
  argument of \<^verbatim>\<open>Keypair.from_seed\<close>, which the source never calls) and raises on any
  other length; the public key is the second half of the keypair, printed in base 58.
  The curve checks of the real library are left out.
\<close>

definition b58_alphabet :: string where
  "b58_alphabet = ''123456789ABCDEFGHJKLMNPQRSTUVWXYZabcdefghijkmnopqrstuvwxyz''"

fun b58_digits :: "nat \<Rightarrow> string" where
  "b58_digits n = (if n = 0 then [] else b58_digits (n div 58) @ [b58_alphabet ! (n mod 58)])"

declare b58_digits.simps [simp del]

definition base58 :: "byte list \<Rightarrow> string" where
  "base58 bs =
     replicate (length (takeWhile (\<lambda>b. b = 0) bs)) (CHR ''1'')
       @ b58_digits (foldl (\<lambda>a b. a * 256 + unat b) 0 bs)"

definition solders64 :: "byte list solders" where
  "solders64 =
     \<lparr> from_bytes = (\<lambda>bs. if length bs = 64 then Inr bs
          else Inl (ValueError (''expected a sequence of length 64 (got ''
                 @ str_nat (length bs) @ '')''))),
       pubkey_str = (\<lambda>kp. base58 (drop 32 kp)) \<rparr>"

text \<open>
  A key file of \<open>n\<close> bytes holds the JSON array \<^verbatim>\<open>[1, 2, ..., n]\<close>. All sample trees put the
  working directory at \<^verbatim>\<open>/home/me\<close>.
\<close>

definition key_ints :: "nat \<Rightarrow> int list" where
  "key_ints n = map int [1..<Suc n]"

definition key_file :: "nat \<Rightarrow> node" where
  "key_file n = File (Inr (JArr (map JInt (key_ints n))))"

definition home_of :: "string \<Rightarrow> path option" where
  "home_of u = (if u = [] then Some [''/'', ''home'', ''me''] else None)"

text \<open>
  The scenario of the specification: \<^verbatim>\<open>a.json\<close> with 64 bytes, \<^verbatim>\<open>b.json\<close> with the JSON
  string \<^verbatim>\<open>"not an array"\<close>, \<^verbatim>\<open>c.json\<close> with 32 bytes.
\<close>

definition wallets_fs :: filesystem where
  "wallets_fs =
     \<lparr> root = Dir [(''home'', Dir [(''me'', Dir [(''wallets'', Dir
          [(''c.json'', key_file 32),
           (''a.json'', key_file 64),
           (''b.json'', File (Inr (JStr ''not an array'')))])])])],
       cwd = [''home'', ''me''], homes = home_of \<rparr>"

text \<open>
  A directory with a subdirectory, a file that is not named \<^verbatim>\<open>*.json\<close>, two files with
  the same key and a file of three bytes; and the same contents with both directories
  listed in another order.
\<close>

definition nested_entries :: "(string \<times> node) list" where
  "nested_entries =
     [(''team'', Dir [(''k2.json'', key_file 64),
                     (''short.json'', File (Inr (JArr [JInt 1, JInt 2, JInt 3])))]),
      (''notes.txt'', key_file 64),
      (''k1.json'', key_file 64),
      (''bad.json'', File (Inr (JStr ''not an array'')))]"

definition nested_fs :: filesystem where
  "nested_fs =
     \<lparr> root = Dir [(''home'', Dir [(''me'', Dir [(''wallets'', Dir nested_entries)])])],
       cwd = [''home'', ''me''], homes = home_of \<rparr>"

definition nested_fs_relisted :: filesystem where
  "nested_fs_relisted =
     \<lparr> root = Dir [(''home'', Dir [(''me'', Dir [(''wallets'', Dir
          [(''bad.json'', File (Inr (JStr ''not an array''))),
           (''k1.json'', key_file 64),
           (''team'', Dir [(''short.json'', File (Inr (JArr [JInt 1, JInt 2, JInt 3]))),
                           (''k2.json'', key_file 64)]),
           (''notes.txt'', key_file 64)])])])],
       cwd = [''home'', ''me''], homes = home_of \<rparr>"

text \<open>A dangling symbolic link, and a key file whose name begins with \<^verbatim>\<open>~\<close>.\<close>

definition dangling_fs :: filesystem where
  "dangling_fs =
     \<lparr> root = Dir [(''home'', Dir [(''me'', Dir [(''wallets'', Dir [(''gone.json'', Dangling)])])])],
       cwd = [''home'', ''me''], homes = home_of \<rparr>"

definition tilde_fs :: filesystem where
  "tilde_fs =
     \<lparr> root = Dir [(''home'', Dir [(''me'', Dir [(''~a.json'', key_file 64)])])],
       cwd = [''home'', ''me''], homes = home_of \<rparr>"

section \<open>Properties\<close>

subsection \<open>The loops, written as maps over the candidates\<close>

lemma list_loop_eq: "list_loop lib fs ps acc = acc @ map (entry lib fs) ps"
  by (induction ps arbitrary: acc) (auto simp: entry_def split: sum.splits)

lemma glob_not_exists: "\<not> exists fs d \<Longrightarrow> glob fs d = []"
  by (auto simp: exists_def glob_def split: option.splits node.splits)

lemma list_eq: "list_public_keys_with_paths lib fs d = map (entry lib fs) (sort (glob fs d))"
  by (simp add: list_public_keys_with_paths_def list_loop_eq glob_not_exists)

lemma load_loop_eq:
  "load_loop lib fs ps (ks, out) =
     (ks @ concat (map (loaded lib fs) ps), out @ concat (map (failure_line lib fs) ps))"
  by (induction ps arbitrary: ks out) (auto simp: loaded_def failure_line_def split: sum.splits)

lemma load_all_eq:
  "load_all_wallets lib fs d =
     (concat (map (loaded lib fs) (sort (glob fs d))),
      concat (map (failure_line lib fs) (sort (glob fs d))))"
  by (simp add: load_all_wallets_def load_loop_eq glob_not_exists)

lemma load_Inr_iff:
  "load_keypair_from_json lib fs p = Inr kp \<longleftrightarrow>
     (\<exists>xs bs. lookup fs p = Some (File (Inr (JArr xs))) \<and> bytes_py xs = Inr bs \<and>
        (length bs = 32 \<or> length bs = 64) \<and> from_bytes lib bs = Inr kp)"
  by (auto simp: load_keypair_from_json_def read_json_def
      split: option.splits node.splits sum.splits json.splits)

lemma entry_marker:
  "\<forall>kp. \<not> is_error_marker (pubkey_str lib kp) \<Longrightarrow>
     is_error_marker (snd (entry lib fs p)) \<longleftrightarrow> isl (load_keypair_from_json lib fs p)"
  unfolding entry_def
  by (cases "load_keypair_from_json lib fs p") (simp_all add: is_error_marker_def)

lemma entry_fst: "fst (entry lib fs p) = path_str p"
  by (simp add: entry_def split: sum.splits)

lemma entry_cong:
  "read_json fs' p = read_json fs p \<Longrightarrow> entry lib fs' p = entry lib fs p"
  by (simp add: entry_def load_keypair_from_json_def)

lemma loaded_cong:
  "read_json fs' p = read_json fs p \<Longrightarrow> loaded lib fs' p = loaded lib fs p"
  by (simp add: loaded_def load_keypair_from_json_def)

lemma failure_line_cong:
  "read_json fs' p = read_json fs p \<Longrightarrow> failure_line lib fs' p = failure_line lib fs p"
  by (simp add: failure_line_def load_keypair_from_json_def)

lemma sort_mset_cong: "mset xs = mset ys \<Longrightarrow> sort xs = sort ys"
  by (metis mset_sort properties_for_sort sorted_sort)

lemma same_candidates_same_results:
  assumes m: "mset (glob fs' d) = mset (glob fs d)"
    and r: "\<forall>p\<in>set (glob fs d). read_json fs' p = read_json fs p"
  shows "list_public_keys_with_paths lib fs' d = list_public_keys_with_paths lib fs d
     \<and> load_all_wallets lib fs' d = load_all_wallets lib fs d"
proof -
  from m have s: "sort (glob fs' d) = sort (glob fs d)" by (rule sort_mset_cong)
  from r have r': "\<forall>p\<in>set (sort (glob fs d)). read_json fs' p = read_json fs p" by simp
  have e1: "map (entry lib fs') (sort (glob fs d)) = map (entry lib fs) (sort (glob fs d))"
    unfolding map_eq_conv using r' entry_cong by blast
  have e2: "map (loaded lib fs') (sort (glob fs d)) = map (loaded lib fs) (sort (glob fs d))"
    unfolding map_eq_conv using r' loaded_cong by blast
  have e3: "map (failure_line lib fs') (sort (glob fs d))
      = map (failure_line lib fs) (sort (glob fs d))"
    unfolding map_eq_conv using r' failure_line_cong by blast
  show ?thesis unfolding list_eq load_all_eq s e1 e2 e3 by (rule conjI; rule refl)
qed

lemma load_not_array:
  assumes "lookup fs p = Some (File (Inr (JStr s)))"
  shows "load_keypair_from_json lib fs p
     = Inl (ValueError (''Invalid key file format (expected array): '' @ path_str p))"
  using assms by (simp add: load_keypair_from_json_def read_json_def)

subsection \<open>What the glob yields\<close>

lemma walk_sound:
  "p \<in> set (walk b nd) \<Longrightarrow> \<exists>rel. rel \<noteq> [] \<and> p = b @ rel \<and> json_name (last rel)"
  "p \<in> set (walks b es) \<Longrightarrow> \<exists>rel. rel \<noteq> [] \<and> p = b @ rel \<and> json_name (last rel)"
proof (induction b nd and b es arbitrary: p and p rule: walk_walks.induct)
  case (5 b n nd es)
  from "5.prems" consider
      (here) "json_name n" "p = b @ [n]"
    | (below) "p \<in> set (walk (b @ [n]) nd)"
    | (later) "p \<in> set (walks b es)"
    by (auto split: if_splits)
  then show ?case
  proof cases
    case here
    then show ?thesis by (intro exI[of _ "[n]"]) simp
  next
    case below
    from "5.IH"(1)[OF this] obtain rel where "rel \<noteq> []" "p = (b @ [n]) @ rel" "json_name (last rel)"
      by blast
    then show ?thesis by (intro exI[of _ "n # rel"]) simp
  next
    case later
    from "5.IH"(2)[OF this] show ?thesis .
  qed
qed simp_all

lemma glob_sound:
  assumes "p \<in> set (glob fs d)"
  shows "\<exists>rel. rel \<noteq> [] \<and> p = d @ rel \<and> json_name (last rel)"
  using assms walk_sound(2)[of p d]
  by (auto simp: glob_def split: option.splits node.splits)

lemma walks_entry: "(c, n) \<in> set es \<Longrightarrow> json_name c \<Longrightarrow> b @ [c] \<in> set (walks b es)"
  by (induction es) auto

lemma walks_below: "(c, n) \<in> set es \<Longrightarrow> set (walk (b @ [c]) n) \<subseteq> set (walks b es)"
  by (induction es) auto

lemma walks_complete:
  "node_at (Dir es) rel = Some nd \<Longrightarrow> rel \<noteq> [] \<Longrightarrow> json_name (last rel)
     \<Longrightarrow> b @ rel \<in> set (walks b es)"
proof (induction rel arbitrary: b es)
  case Nil
  then show ?case by simp
next
  case (Cons c cs)
  from Cons.prems(1) obtain n where n: "map_of es c = Some n" "node_at n cs = Some nd"
    by (auto split: option.splits)
  then have mem: "(c, n) \<in> set es" by (simp add: map_of_SomeD)
  show ?case
  proof (cases cs)
    case Nil
    with Cons.prems(3) mem show ?thesis by (simp add: walks_entry)
  next
    case (Cons c' cs')
    with n(2) obtain es' where es': "n = Dir es'" by (cases n) simp_all
    from Cons.IH[of es' "b @ [c]"] n(2) es' Cons Cons.prems(3)
    have "(b @ [c]) @ cs \<in> set (walks (b @ [c]) es')" by simp
    then have "(b @ [c]) @ cs \<in> set (walk (b @ [c]) n)" by (simp add: es')
    with walks_below[OF mem, of b] show ?thesis by auto
  qed
qed

lemma glob_complete:
  assumes "lookup fs d = Some (Dir es)" "node_at (Dir es) rel = Some nd" "rel \<noteq> []"
    "json_name (last rel)"
  shows "d @ rel \<in> set (glob fs d)"
  using walks_complete[OF assms(2-4), of d] assms(1) by (simp add: glob_def)

lemma json_name_append: "json_name s \<Longrightarrow> json_name (t @ s)"
  by (auto simp: json_name_def)

lemma json_name_join: "p \<noteq> [] \<Longrightarrow> json_name (last p) \<Longrightarrow> json_name (join_parts p)"
proof (induction p rule: join_parts.induct)
  case (3 c d cs)
  then have "json_name (join_parts (d # cs))" by simp
  then have "json_name ((c @ ''/'') @ join_parts (d # cs))" by (rule json_name_append)
  then show ?case by simp
qed simp_all

lemma json_name_path_str: "p \<noteq> [] \<Longrightarrow> json_name (last p) \<Longrightarrow> json_name (path_str p)"
proof (cases p)
  case Nil then show "p \<noteq> [] \<Longrightarrow> ?thesis" by simp
next
  case (Cons c cs)
  assume a: "p \<noteq> []" "json_name (last p)"
  show ?thesis
  proof (cases "c = ''/''")
    case True
    with a Cons have "cs \<noteq> []" by (auto simp: json_name_def)
    with a Cons True have "json_name (join_parts cs)" by (simp add: json_name_join)
    then have "json_name (''/'' @ join_parts cs)" by (rule json_name_append)
    with Cons True show ?thesis by (simp add: path_str_def)
  next
    case False
    with a Cons show ?thesis by (simp add: path_str_def json_name_join)
  qed
qed

subsection \<open>The order of a directory listing does not matter\<close>

lemma canonicals_map: "canonicals es = map (\<lambda>(n, x). (n, canonical x)) es"
  by (induction es) auto

lemma walks_mset:
  "mset (walks b es) =
     (\<Sum>e\<in>#mset es. mset ((if json_name (fst e) then [b @ [fst e]] else [])
        @ walk (b @ [fst e]) (snd e)))"
  by (induction es) auto

lemma walks_perm: "mset es = mset es' \<Longrightarrow> mset (walks b es) = mset (walks b es')"
  by (simp add: walks_mset)

lemma walk_canonical:
  "mset (walk b (canonical n)) = mset (walk b n)"
  "mset (walks b (canonicals es)) = mset (walks b es)"
proof (induction n and es arbitrary: b and b rule: canonical_canonicals.induct)
  case (3 es)
  have "mset (walks b (sort_key fst (canonicals es))) = mset (walks b (canonicals es))"
    by (rule walks_perm) simp
  with 3 show ?case by simp
qed simp_all

lemma names_oks_entry: "names_oks es \<Longrightarrow> (c, x) \<in> set es \<Longrightarrow> names_ok x"
  by (induction es) auto

lemma map_of_sort_key:
  assumes "distinct (map fst xs)"
  shows "map_of (sort_key fst xs) = map_of xs"
proof -
  have "mset (map fst (sort_key fst xs)) = mset (map fst xs)" by simp
  then have "distinct (map fst (sort_key fst xs))"
    using assms by (metis mset_eq_imp_distinct_iff)
  moreover have "set (sort_key fst xs) = set xs" by simp
  ultimately show ?thesis using assms by (simp add: map_of_inject_set)
qed

lemma map_of_canonicals: "map_of (canonicals es) c = map_option canonical (map_of es c)"
  by (induction es) auto

lemma fst_canonicals: "map fst (canonicals es) = map fst es"
  by (induction es) auto

lemma node_at_canonical:
  "names_ok n \<Longrightarrow> node_at (canonical n) rel = map_option canonical (node_at n rel)"
proof (induction rel arbitrary: n)
  case Nil
  then show ?case by simp
next
  case (Cons c cs)
  show ?case
  proof (cases n)
    case (Dir es)
    with Cons.prems have d: "distinct (map fst es)" and o: "names_oks es" by simp_all
    have m: "map_of (sort_key fst (canonicals es)) c = map_option canonical (map_of es c)"
      using d by (simp add: map_of_sort_key fst_canonicals map_of_canonicals)
    show ?thesis
    proof (cases "map_of es c")
      case None
      with Dir m show ?thesis by simp
    next
      case (Some x)
      then have "names_ok x" using o by (meson map_of_SomeD names_oks_entry)
      from Cons.IH[OF this] Dir m Some show ?thesis by simp
    qed
  qed simp_all
qed

lemma lookup_canonical:
  assumes "same_contents fs fs'"
  shows "map_option canonical (lookup fs p) = map_option canonical (lookup fs' p)"
proof -
  have "map_option canonical (node_at (root fs) q) = map_option canonical (node_at (root fs') q)"
    for q
    using assms node_at_canonical[of "root fs" q] node_at_canonical[of "root fs'" q]
    by (simp add: same_contents_def)
  with assms show ?thesis
    by (simp add: lookup_def same_contents_def split: list.splits)
qed

lemma read_json_same_contents:
  assumes "same_contents fs fs'"
  shows "read_json fs' p = read_json fs p"
proof (cases "lookup fs p")
  case None
  with lookup_canonical[OF assms, of p] show ?thesis by (simp add: read_json_def)
next
  case (Some n)
  with lookup_canonical[OF assms, of p] obtain n' where
    n': "lookup fs' p = Some n'" "canonical n = canonical n'" by (cases "lookup fs' p") auto
  with Some show ?thesis
    by (cases n; cases n') (simp_all add: read_json_def)
qed

lemma glob_same_contents:
  assumes "same_contents fs fs'"
  shows "mset (glob fs' d) = mset (glob fs d)"
proof (cases "lookup fs d")
  case None
  with lookup_canonical[OF assms, of d] show ?thesis by (simp add: glob_def)
next
  case (Some n)
  with lookup_canonical[OF assms, of d] obtain n' where
    n': "lookup fs' d = Some n'" "canonical n = canonical n'" by (cases "lookup fs' d") auto
  have "mset (walk d n) = mset (walk d n')"
    using walk_canonical(1)[of d n] walk_canonical(1)[of d n'] n'(2) by simp
  moreover have "glob fs d = walk d n" using Some by (cases n) (simp_all add: glob_def)
  moreover have "glob fs' d = walk d n'" using n'(1) by (cases n') (simp_all add: glob_def)
  ultimately show ?thesis by simp
qed

subsection \<open>The macOS module on paths without a tilde\<close>

lemma expanduser_id: "\<not> tilde p \<Longrightarrow> expanduser fs p = Inr p"
  by (auto simp: tilde_def expanduser_def split: list.splits)

lemma load_mac_eq:
  "\<not> tilde p \<Longrightarrow> exists fs p \<Longrightarrow>
     load_keypair_from_json_mac lib fs p = load_keypair_from_json lib fs p"
  by (simp add: load_keypair_from_json_mac_def load_keypair_from_json_def expanduser_id)

lemma list_loop_mac_eq:
  "\<forall>p\<in>set ps. \<not> tilde p \<and> exists fs p \<Longrightarrow>
     list_loop_mac lib fs ps acc = list_loop lib fs ps acc"
  by (induction ps arbitrary: acc) (auto simp: load_mac_eq split: sum.splits)

lemma tilde_path_str: "tilde p \<longleftrightarrow> take 1 (path_str p) = ''~''"
proof (cases p)
  case Nil
  then show ?thesis by (simp add: tilde_def path_str_def)
next
  case (Cons c cs)
  show ?thesis
  proof (cases c)
    case Nil
    with Cons show ?thesis by (cases cs) (simp_all add: tilde_def path_str_def)
  next
    case c: (Cons x xs)
    with Cons show ?thesis by (cases cs) (auto simp: tilde_def path_str_def)
  qed
qed

lemma candidates_not_tilde:
  assumes "d \<noteq> []" "\<not> tilde d" "p \<in> set (glob fs d)"
  shows "\<not> tilde p"
  using glob_sound[OF assms(3)] assms(1,2) by (cases d) (auto simp: tilde_def)

subsection \<open>Evaluation of the sample directories\<close>

lemma bytes_py_ints:
  "\<forall>x\<in>set xs. 0 \<le> x \<and> x < 256 \<Longrightarrow> bytes_py (map JInt xs) = Inr (map word_of_int xs)"
  by (induction xs) simp_all

lemma length_key_ints: "length (key_ints n) = n"
  by (simp add: key_ints_def)

lemma bytes_py_key:
  "n < 256 \<Longrightarrow> bytes_py (map JInt (key_ints n)) = Inr (map word_of_int (key_ints n))"
  by (rule bytes_py_ints) (auto simp: key_ints_def)

lemma b58_digits_alphabet: "set (b58_digits n) \<subseteq> set b58_alphabet"
proof (induction n rule: b58_digits.induct)
  case (1 n)
  have "b58_alphabet ! (n mod 58) \<in> set b58_alphabet"
    by (rule nth_mem) (simp add: b58_alphabet_def)
  with 1 show ?case by (subst b58_digits.simps) auto
qed

lemma base58_alphabet: "set (base58 bs) \<subseteq> set b58_alphabet"
proof -
  have "CHR ''1'' \<in> set b58_alphabet" by (simp add: b58_alphabet_def)
  with b58_digits_alphabet show ?thesis by (auto simp: base58_def)
qed

lemma marker_has_lt: "is_error_marker s \<Longrightarrow> CHR ''<'' \<in> set s"
proof -
  assume "is_error_marker s"
  then have "take 7 s = ''<error:''" by (simp add: is_error_marker_def)
  then have "CHR ''<'' \<in> set (take 7 s)" by simp
  then show ?thesis by (rule in_set_takeD)
qed

lemma solders64_no_marker: "\<not> is_error_marker (pubkey_str solders64 kp)"
proof
  assume "is_error_marker (pubkey_str solders64 kp)"
  then have "CHR ''<'' \<in> set (base58 (drop 32 kp))"
    using marker_has_lt by (simp add: solders64_def)
  with base58_alphabet have "CHR ''<'' \<in> set b58_alphabet" by blast
  then show False by (simp add: b58_alphabet_def)
qed

lemma byte_values_key: "n < 256 \<Longrightarrow> list_all byte_value (map JInt (key_ints n))"
  by (auto simp: list_all_iff byte_value_def key_ints_def)

lemma glob_wallets: "glob wallets_fs [''wallets''] =
    [[''wallets'', ''c.json''], [''wallets'', ''a.json''], [''wallets'', ''b.json'']]"
  by (simp add: glob_def lookup_def wallets_fs_def json_name_def key_file_def)

lemma sort_wallets:
  "sort [[''wallets'', ''c.json''], [''wallets'', ''a.json''], [''wallets'', ''b.json'']]
     = [[''wallets'', ''a.json''], [''wallets'', ''b.json''], [''wallets'', ''c.json'']]"
  by simp

lemma glob_nested: "glob nested_fs [''wallets''] =
    [[''wallets'', ''team'', ''k2.json''], [''wallets'', ''team'', ''short.json''],
     [''wallets'', ''k1.json''], [''wallets'', ''bad.json'']]"
  by (simp add: glob_def lookup_def nested_fs_def nested_entries_def json_name_def key_file_def)

lemma glob_nested_relisted: "glob nested_fs_relisted [''wallets''] =
    [[''wallets'', ''bad.json''], [''wallets'', ''k1.json''],
     [''wallets'', ''team'', ''short.json''], [''wallets'', ''team'', ''k2.json'']]"
  by (simp add: glob_def lookup_def nested_fs_relisted_def json_name_def key_file_def)

lemma sort_nested:
  "sort [[''wallets'', ''team'', ''k2.json''], [''wallets'', ''team'', ''short.json''],
     [''wallets'', ''k1.json''], [''wallets'', ''bad.json'']]
   = [[''wallets'', ''bad.json''], [''wallets'', ''k1.json''],
      [''wallets'', ''team'', ''k2.json''], [''wallets'', ''team'', ''short.json'']]"
  by simp

lemma same_contents_nested: "same_contents nested_fs nested_fs_relisted"
  by (simp add: same_contents_def nested_fs_def nested_fs_relisted_def nested_entries_def
      key_file_def)

lemma glob_tilde: "glob tilde_fs [] = [[''~a.json'']]"
  by (simp add: glob_def lookup_def tilde_fs_def json_name_def key_file_def)

lemma load_key64:
  assumes "lookup fs p = Some (key_file 64)"
  shows "load_keypair_from_json solders64 fs p = Inr (map word_of_int (key_ints 64))"
  using assms
  by (simp add: load_keypair_from_json_def read_json_def key_file_def bytes_py_key
      length_key_ints solders64_def)

lemma str_nat_32: "str_nat 32 = ''32''"
  by code_simp

lemma load_key32:
  assumes "lookup fs p = Some (key_file 32)"
  shows "load_keypair_from_json solders64 fs p
     = Inl (ValueError ''expected a sequence of length 64 (got 32)'')"
  using assms
  by (simp add: load_keypair_from_json_def read_json_def key_file_def bytes_py_key
      length_key_ints solders64_def str_nat_32)

lemma str_nat_3: "str_nat (Suc (Suc (Suc 0))) = ''3''"
  by code_simp

lemma lookup_wallets:
  "lookup wallets_fs [''wallets'', ''a.json''] = Some (key_file 64)"
  "lookup wallets_fs [''wallets'', ''b.json''] = Some (File (Inr (JStr ''not an array'')))"
  "lookup wallets_fs [''wallets'', ''c.json''] = Some (key_file 32)"
  by (simp_all add: lookup_def wallets_fs_def)

lemma lookup_nested:
  "lookup nested_fs [''wallets''] = Some (Dir nested_entries)"
  "lookup nested_fs [''wallets'', ''bad.json''] = Some (File (Inr (JStr ''not an array'')))"
  "lookup nested_fs [''wallets'', ''k1.json''] = Some (key_file 64)"
  "lookup nested_fs [''wallets'', ''team'', ''k2.json''] = Some (key_file 64)"
  "lookup nested_fs [''wallets'', ''team'', ''short.json'']
     = Some (File (Inr (JArr [JInt 1, JInt 2, JInt 3])))"
  by (simp_all add: lookup_def nested_fs_def nested_entries_def)

lemma path_strs:
  "path_str [''wallets'', ''a.json''] = ''wallets/a.json''"
  "path_str [''wallets'', ''b.json''] = ''wallets/b.json''"
  "path_str [''wallets'', ''c.json''] = ''wallets/c.json''"
  "path_str [''wallets'', ''bad.json''] = ''wallets/bad.json''"
  "path_str [''wallets'', ''k1.json''] = ''wallets/k1.json''"
  "path_str [''wallets'', ''team'', ''k2.json''] = ''wallets/team/k2.json''"
  "path_str [''wallets'', ''team'', ''short.json''] = ''wallets/team/short.json''"
  "path_str [''~a.json''] = ''~a.json''"
  "path_str [''wallets'', ''gone.json''] = ''wallets/gone.json''"
  by (simp_all add: path_str_def)

lemma entries_wallets:
  "entry solders64 wallets_fs [''wallets'', ''a.json'']
     = (''wallets/a.json'', pubkey_str solders64 (map word_of_int (key_ints 64)))"
  "entry solders64 wallets_fs [''wallets'', ''b.json'']
     = (''wallets/b.json'', ''<error: Invalid key file format (expected array): wallets/b.json>'')"
  "entry solders64 wallets_fs [''wallets'', ''c.json'']
     = (''wallets/c.json'', ''<error: expected a sequence of length 64 (got 32)>'')"
  by (simp_all add: entry_def load_key64 load_key32 load_not_array lookup_wallets path_strs)

lemma list_wallets:
  "list_public_keys_with_paths solders64 wallets_fs [''wallets''] =
     [(''wallets/a.json'', pubkey_str solders64 (map word_of_int (key_ints 64))),
      (''wallets/b.json'', ''<error: Invalid key file format (expected array): wallets/b.json>''),
      (''wallets/c.json'', ''<error: expected a sequence of length 64 (got 32)>'')]"
  by (simp add: list_eq glob_wallets sort_wallets entries_wallets)

lemma well_formed_wallets:
  "well_formed wallets_fs [''wallets'', ''a.json'']"
  "\<not> well_formed wallets_fs [''wallets'', ''b.json'']"
  "well_formed wallets_fs [''wallets'', ''c.json'']"
  by (simp_all add: well_formed_def lookup_wallets key_file_def byte_values_key length_key_ints)

lemma markers_wallets:
  "\<not> is_error_marker (snd (entry solders64 wallets_fs [''wallets'', ''a.json'']))"
  "is_error_marker (snd (entry solders64 wallets_fs [''wallets'', ''b.json'']))"
  "is_error_marker (snd (entry solders64 wallets_fs [''wallets'', ''c.json'']))"
  by (simp_all add: entries_wallets solders64_no_marker) (simp_all add: is_error_marker_def)

lemma not_exists_nowhere: "\<not> exists wallets_fs [''nowhere'']"
  by (simp add: exists_def lookup_def wallets_fs_def)

lemma cands_nested:
  "sort (glob nested_fs [''wallets'']) =
     [[''wallets'', ''bad.json''], [''wallets'', ''k1.json''],
      [''wallets'', ''team'', ''k2.json''], [''wallets'', ''team'', ''short.json'']]"
  by (simp only: glob_nested sort_nested)

lemma nth_cands_nested:
  "sort (glob nested_fs [''wallets'']) ! 0 = [''wallets'', ''bad.json'']"
  "sort (glob nested_fs [''wallets'']) ! 1 = [''wallets'', ''k1.json'']"
  "sort (glob nested_fs [''wallets'']) ! 2 = [''wallets'', ''team'', ''k2.json'']"
  "length (sort (glob nested_fs [''wallets''])) = 4"
  by (simp_all add: cands_nested)

lemma node_at_nested:
  "node_at (Dir nested_entries) [''notes.txt''] = Some (key_file 64)"
  "node_at (Dir nested_entries) [''team'', ''k2.json''] = Some (key_file 64)"
  unfolding nested_entries_def by simp_all

lemma json_names:
  "\<not> json_name ''notes.txt''" "json_name ''k2.json''"
  by (simp_all add: json_name_def)

lemma tilde_wallets:
  "\<not> tilde [''wallets'']" "\<not> tilde [''wallets'', ''a.json'']"
  "\<not> tilde [''wallets'', ''b.json'']" "\<not> tilde [''wallets'', ''c.json'']"
  by (simp_all add: tilde_def)

lemma exists_wallets:
  "exists wallets_fs [''wallets'', ''a.json'']" "exists wallets_fs [''wallets'', ''b.json'']"
  "exists wallets_fs [''wallets'', ''c.json'']"
  by (simp_all add: exists_def lookup_wallets key_file_def)

lemma mac_tilde_value:
  "list_public_keys_with_paths_mac solders64 tilde_fs []
     = Inr [(''~a.json'', ''<error: Could not determine home directory.>'')]"
proof -
  have e: "exists tilde_fs []" by (simp add: exists_def lookup_def tilde_fs_def)
  have l: "load_keypair_from_json_mac solders64 tilde_fs [''~a.json'']
      = Inl (RuntimeError ''Could not determine home directory.'')"
    by (simp add: load_keypair_from_json_mac_def expanduser_def tilde_fs_def home_of_def)
  show ?thesis
    by (simp add: list_public_keys_with_paths_mac_def expanduser_def e glob_tilde l path_strs)
qed

lemma main_tilde_value:
  "list_public_keys_with_paths solders64 tilde_fs []
     = [(''~a.json'', pubkey_str solders64 (map word_of_int (key_ints 64)))]"
proof -
  have "lookup tilde_fs [''~a.json''] = Some (key_file 64)"
    by (simp add: lookup_def tilde_fs_def)
  then show ?thesis
    by (simp add: list_eq glob_tilde entry_def load_key64 path_strs)
qed

section \<open>The claims\<close>

text \<open>
  C1. For every directory with \<open>N\<close> candidate key files of which exactly \<open>K\<close> are
  well-formed, \<open>list_public_keys_with_paths\<close> should return \<open>N\<close> entries, \<open>K\<close> of them with a
  derived public key and \<open>N - K\<close> with a failure reason. The function does return one
  entry for each candidate and raises nothing (\<open>list_eq\<close>: every exception of a
  candidate becomes its entry). The count of loaded entries is not \<open>K\<close>: on the
  directory of the specification's scenario, with a library whose \<^verbatim>\<open>from_bytes\<close> takes 64
  bytes only, two of the three candidates are well-formed and one entry is loaded. The
  32-byte file passes the length check and is refused by \<^verbatim>\<open>Keypair.from_bytes\<close>.
\<close>

theorem two_well_formed_one_loaded:
  "length (glob wallets_fs [''wallets'']) = 3
   \<and> filter (well_formed wallets_fs) (sort (glob wallets_fs [''wallets'']))
       = [[''wallets'', ''a.json''], [''wallets'', ''c.json'']]
   \<and> length (list_public_keys_with_paths solders64 wallets_fs [''wallets'']) = 3
   \<and> filter (\<lambda>e. \<not> is_error_marker (snd e))
         (list_public_keys_with_paths solders64 wallets_fs [''wallets''])
       = [(''wallets/a.json'', pubkey_str solders64 (map word_of_int (key_ints 64)))]
   \<and> filter (\<lambda>e. is_error_marker (snd e))
         (list_public_keys_with_paths solders64 wallets_fs [''wallets''])
       = [(''wallets/b.json'', ''<error: Invalid key file format (expected array): wallets/b.json>''),
          (''wallets/c.json'', ''<error: expected a sequence of length 64 (got 32)>'')]"
proof -
  have m: "\<not> is_error_marker (pubkey_str solders64 (map word_of_int (key_ints 64)))"
    by (rule solders64_no_marker)
  have e: "is_error_marker ''<error: Invalid key file format (expected array): wallets/b.json>''"
    "is_error_marker ''<error: expected a sequence of length 64 (got 32)>''"
    by (simp_all add: is_error_marker_def)
  have "filter (well_formed wallets_fs) (sort (glob wallets_fs [''wallets'']))
       = [[''wallets'', ''a.json''], [''wallets'', ''c.json'']]"
    by (simp add: glob_wallets sort_wallets well_formed_wallets)
  then show ?thesis
    using m e by (simp add: glob_wallets list_wallets)
qed

text \<open>
  C2. On the directory with \<^verbatim>\<open>a.json\<close> (64 bytes), \<^verbatim>\<open>b.json\<close> (\<^verbatim>\<open>"not an array"\<close>) and
  \<^verbatim>\<open>c.json\<close> (32 bytes) the function returns three entries, but with a library whose
  \<^verbatim>\<open>from_bytes\<close> takes 64 bytes only, as that of \<^verbatim>\<open>solders\<close>, the 32-byte file passes the
  length check of \<open>load_keypair_from_json\<close> and is then refused by \<^verbatim>\<open>Keypair.from_bytes\<close>:
  one entry is loaded and two are failed, not two and one.
\<close>

theorem scenario_32_byte_file_fails:
  "list_public_keys_with_paths solders64 wallets_fs [''wallets''] =
     [(''wallets/a.json'', pubkey_str solders64 (map word_of_int (key_ints 64))),
      (''wallets/b.json'', ''<error: Invalid key file format (expected array): wallets/b.json>''),
      (''wallets/c.json'', ''<error: expected a sequence of length 64 (got 32)>'')]
   \<and> map (\<lambda>e. is_error_marker (snd e)) (list_public_keys_with_paths solders64 wallets_fs [''wallets''])
       = [False, True, True]"
  by (simp add: list_wallets solders64_no_marker) (simp add: is_error_marker_def)

text \<open>
  C3. When the file parses to a byte sequence whose length is neither 32 nor 64,
  \<open>load_keypair_from_json\<close> fails with the \<^verbatim>\<open>ValueError\<close> that reports the actual length,
  and no keypair is produced.
\<close>

theorem invalid_length_rejected:
  assumes "lookup fs p = Some (File (Inr (JArr xs)))"
    and "bytes_py xs = Inr bs"
    and "length bs \<noteq> 32" and "length bs \<noteq> 64"
  shows "load_keypair_from_json lib fs p =
     Inl (ValueError (''Unexpected secret key length '' @ str_nat (length bs) @ '' in '' @ path_str p))"
  using assms by (simp add: load_keypair_from_json_def read_json_def)

theorem invalid_length_rejected_witness:
  "lookup nested_fs [''wallets'', ''team'', ''short.json'']
      = Some (File (Inr (JArr [JInt 1, JInt 2, JInt 3])))
   \<and> bytes_py [JInt 1, JInt 2, JInt 3] = Inr [1, 2, 3]
   \<and> length [1, 2, 3 :: byte] \<noteq> 32 \<and> length [1, 2, 3 :: byte] \<noteq> 64
   \<and> load_keypair_from_json solders64 nested_fs [''wallets'', ''team'', ''short.json'']
      = Inl (ValueError ''Unexpected secret key length 3 in wallets/team/short.json'')"
proof -
  have h1: "lookup nested_fs [''wallets'', ''team'', ''short.json'']
      = Some (File (Inr (JArr [JInt 1, JInt 2, JInt 3])))"
    by (rule lookup_nested)
  have h2: "bytes_py [JInt 1, JInt 2, JInt 3] = Inr [1, 2, 3]" by simp
  have h3: "length [1, 2, 3 :: byte] \<noteq> 32" and h4: "length [1, 2, 3 :: byte] \<noteq> 64" by simp_all
  from invalid_length_rejected[OF h1 h2 h3 h4, of solders64] h1 h2 h3 h4
  show ?thesis by (simp add: str_nat_3 path_strs)
qed

text \<open>
  C4. For a path that does not exist, \<open>list_public_keys_with_paths\<close> and
  \<open>load_all_wallets\<close> return the empty list; nothing is raised and nothing is printed.
\<close>

theorem missing_directory_empty:
  assumes "\<not> exists fs d"
  shows "list_public_keys_with_paths lib fs d = [] \<and> load_all_wallets lib fs d = ([], [])"
  using assms by (simp add: list_public_keys_with_paths_def load_all_wallets_def)

theorem missing_directory_empty_witness:
  "\<not> exists wallets_fs [''nowhere'']
   \<and> list_public_keys_with_paths solders64 wallets_fs [''nowhere''] = []
   \<and> load_all_wallets solders64 wallets_fs [''nowhere''] = ([], [])"
  using missing_directory_empty[OF not_exists_nowhere, of solders64] not_exists_nowhere by simp

text \<open>
  C5. The candidates are enumerated recursively: every entry named \<^verbatim>\<open>*.json\<close> at any
  depth below the directory is a candidate and has a result entry, and every candidate
  lies below the directory. They are visited in sorted order, the order of \<^verbatim>\<open>pathlib\<close>
  paths: lexicographic on the sequence of parts, each part compared as a string. The
  entries of \<open>list_public_keys_with_paths\<close> and the keypairs of \<open>load_all_wallets\<close> follow
  that order, so two loads of the same directory contents give the same results in the
  same order, whatever order the operating system lists each directory in.
\<close>

theorem scan_order_reproducible:
  "map fst (list_public_keys_with_paths lib fs d) = map path_str (sort (glob fs d))
   \<and> fst (load_all_wallets lib fs d) = concat (map (loaded lib fs) (sort (glob fs d)))
   \<and> sorted (sort (glob fs d))
   \<and> mset (sort (glob fs d)) = mset (glob fs d)
   \<and> (\<forall>p\<in>set (sort (glob fs d)). \<exists>rel. rel \<noteq> [] \<and> p = d @ rel \<and> json_name (last rel))
   \<and> (\<forall>es rel nd. lookup fs d = Some (Dir es) \<and> node_at (Dir es) rel = Some nd \<and> rel \<noteq> []
         \<and> json_name (last rel)
       \<longrightarrow> d @ rel \<in> set (sort (glob fs d))
         \<and> path_str (d @ rel) \<in> fst ` set (list_public_keys_with_paths lib fs d))
   \<and> (same_contents fs fs'
       \<longrightarrow> list_public_keys_with_paths lib fs' d = list_public_keys_with_paths lib fs d
         \<and> load_all_wallets lib fs' d = load_all_wallets lib fs d)"
proof -
  have order: "map fst (list_public_keys_with_paths lib fs d) = map path_str (sort (glob fs d))"
    by (simp add: list_eq entry_fst o_def)
  have keys: "fst (load_all_wallets lib fs d) = concat (map (loaded lib fs) (sort (glob fs d)))"
    by (simp add: load_all_eq)
  have below: "\<forall>p\<in>set (sort (glob fs d)). \<exists>rel. rel \<noteq> [] \<and> p = d @ rel \<and> json_name (last rel)"
    using glob_sound[of _ fs d] by simp
  have deep: "d @ rel \<in> set (sort (glob fs d))
      \<and> path_str (d @ rel) \<in> fst ` set (list_public_keys_with_paths lib fs d)"
    if "lookup fs d = Some (Dir es)" "node_at (Dir es) rel = Some nd" "rel \<noteq> []"
      "json_name (last rel)" for es rel nd
  proof -
    from glob_complete[OF that] have c: "d @ rel \<in> set (sort (glob fs d))" by simp
    then have "path_str (d @ rel) \<in> set (map path_str (sort (glob fs d)))" by simp
    then have "path_str (d @ rel) \<in> set (map fst (list_public_keys_with_paths lib fs d))"
      by (simp only: order)
    with c show ?thesis by simp
  qed
  have same: "list_public_keys_with_paths lib fs' d = list_public_keys_with_paths lib fs d
      \<and> load_all_wallets lib fs' d = load_all_wallets lib fs d"
    if "same_contents fs fs'"
    by (rule same_candidates_same_results)
       (simp_all add: glob_same_contents[OF that] read_json_same_contents[OF that])
  from order keys below deep same show ?thesis by (simp only: sorted_sort mset_sort) blast
qed

theorem scan_order_reproducible_witness:
  "same_contents nested_fs nested_fs_relisted
   \<and> glob nested_fs_relisted [''wallets''] \<noteq> glob nested_fs [''wallets'']
   \<and> list_public_keys_with_paths solders64 nested_fs_relisted [''wallets'']
       = list_public_keys_with_paths solders64 nested_fs [''wallets'']
   \<and> load_all_wallets solders64 nested_fs_relisted [''wallets'']
       = load_all_wallets solders64 nested_fs [''wallets'']
   \<and> lookup nested_fs [''wallets''] = Some (Dir nested_entries)
   \<and> node_at (Dir nested_entries) [''team'', ''k2.json''] = Some (key_file 64)
   \<and> [''team'', ''k2.json''] \<noteq> [] \<and> json_name (last [''team'', ''k2.json''])
   \<and> [''wallets''] @ [''team'', ''k2.json''] \<in> set (sort (glob nested_fs [''wallets'']))
   \<and> path_str ([''wallets''] @ [''team'', ''k2.json''])
       \<in> fst ` set (list_public_keys_with_paths solders64 nested_fs [''wallets''])
   \<and> map fst (list_public_keys_with_paths solders64 nested_fs [''wallets''])
       = [''wallets/bad.json'', ''wallets/k1.json'', ''wallets/team/k2.json'',
          ''wallets/team/short.json'']"
proof -
  note t = scan_order_reproducible[of solders64 nested_fs "[''wallets'']" nested_fs_relisted]
  have d: "glob nested_fs_relisted [''wallets''] \<noteq> glob nested_fs [''wallets'']"
    by (simp add: glob_nested glob_nested_relisted)
  from t same_contents_nested
  have e: "list_public_keys_with_paths solders64 nested_fs_relisted [''wallets'']
       = list_public_keys_with_paths solders64 nested_fs [''wallets'']
     \<and> load_all_wallets solders64 nested_fs_relisted [''wallets'']
       = load_all_wallets solders64 nested_fs [''wallets'']"
    by blast
  have c: "lookup nested_fs [''wallets''] = Some (Dir nested_entries)
     \<and> node_at (Dir nested_entries) [''team'', ''k2.json''] = Some (key_file 64)
     \<and> [''team'', ''k2.json''] \<noteq> [] \<and> json_name (last [''team'', ''k2.json''])"
    by (intro conjI lookup_nested(1) node_at_nested(2)) (simp_all add: json_names)
  with t have f: "[''wallets''] @ [''team'', ''k2.json''] \<in> set (sort (glob nested_fs [''wallets'']))
     \<and> path_str ([''wallets''] @ [''team'', ''k2.json''])
       \<in> fst ` set (list_public_keys_with_paths solders64 nested_fs [''wallets''])"
    by blast
  from t have "map fst (list_public_keys_with_paths solders64 nested_fs [''wallets''])
       = map path_str (sort (glob nested_fs [''wallets'']))"
    by blast
  then have g: "map fst (list_public_keys_with_paths solders64 nested_fs [''wallets''])
       = [''wallets/bad.json'', ''wallets/k1.json'', ''wallets/team/k2.json'',
          ''wallets/team/short.json'']"
    by (simp add: cands_nested path_strs)
  from same_contents_nested d e c f g show ?thesis by blast
qed

text \<open>
  The order is on the parts, which is not the order of the path strings: \<^verbatim>\<open>-\<close> sorts
  before \<^verbatim>\<open>/\<close>.
\<close>

lemma parts_order_is_not_string_order:
  "sort [[''w'', ''team-b'', ''y.json''], [''w'', ''team'', ''x.json'']]
     = [[''w'', ''team'', ''x.json''], [''w'', ''team-b'', ''y.json'']]
   \<and> path_str [''w'', ''team-b'', ''y.json''] < path_str [''w'', ''team'', ''x.json'']"
  by (simp add: path_str_def)

text \<open>
  C6. For a file holding a valid array of 64 bytes the result of
  \<open>load_keypair_from_json\<close> is a function of the content alone: two files with the same
  content, at any two paths of any two filesystems, give the same keypair and the same
  public-key string. The function returns a value and changes no state.
\<close>

theorem decode_deterministic:
  assumes "lookup fs1 p1 = Some (File (Inr (JArr xs)))"
    and "lookup fs2 p2 = Some (File (Inr (JArr xs)))"
    and "bytes_py xs = Inr bs" and "length bs = 64"
  shows "load_keypair_from_json lib fs1 p1 = from_bytes lib bs
     \<and> load_keypair_from_json lib fs2 p2 = from_bytes lib bs
     \<and> map_sum exn_str (pubkey_str lib) (load_keypair_from_json lib fs1 p1)
       = map_sum exn_str (pubkey_str lib) (load_keypair_from_json lib fs2 p2)"
  using assms by (simp add: load_keypair_from_json_def read_json_def)

theorem decode_deterministic_witness:
  "lookup wallets_fs [''wallets'', ''a.json''] = Some (File (Inr (JArr (map JInt (key_ints 64)))))
   \<and> lookup nested_fs [''wallets'', ''team'', ''k2.json'']
       = Some (File (Inr (JArr (map JInt (key_ints 64)))))
   \<and> bytes_py (map JInt (key_ints 64)) = Inr (map word_of_int (key_ints 64))
   \<and> length (map word_of_int (key_ints 64) :: byte list) = 64
   \<and> load_keypair_from_json solders64 wallets_fs [''wallets'', ''a.json'']
       = Inr (map word_of_int (key_ints 64))
   \<and> map_sum exn_str (pubkey_str solders64)
        (load_keypair_from_json solders64 wallets_fs [''wallets'', ''a.json''])
     = map_sum exn_str (pubkey_str solders64)
        (load_keypair_from_json solders64 nested_fs [''wallets'', ''team'', ''k2.json''])"
proof -
  have h1: "lookup wallets_fs [''wallets'', ''a.json'']
      = Some (File (Inr (JArr (map JInt (key_ints 64)))))"
    using lookup_wallets(1) by (simp add: key_file_def)
  have h2: "lookup nested_fs [''wallets'', ''team'', ''k2.json'']
       = Some (File (Inr (JArr (map JInt (key_ints 64)))))"
    using lookup_nested(4) by (simp add: key_file_def)
  have h3: "bytes_py (map JInt (key_ints 64)) = Inr (map word_of_int (key_ints 64))"
    by (simp add: bytes_py_key)
  have h4: "length (map word_of_int (key_ints 64) :: byte list) = 64"
    by (simp add: length_key_ints)
  note t = decode_deterministic[OF h1 h2 h3 h4, of solders64]
  have "from_bytes solders64 (map word_of_int (key_ints 64)) = Inr (map word_of_int (key_ints 64))"
    by (simp add: solders64_def length_key_ints)
  with t h1 h2 h3 h4 show ?thesis by simp
qed

text \<open>
  C7. When two files encode the same public key, both entries are kept in the ordered
  result, one per path, and the lookup by public key (modelled from the specification,
  see \<open>get\<close>) resolves to the first loaded match in scan order; no later entry replaces
  an earlier one.
\<close>

theorem duplicate_keys_first_match:
  assumes "\<not> is_error_marker k"
    and "i < j" and "j < length (sort (glob fs d))"
    and "load_keypair_from_json lib fs (sort (glob fs d) ! i) = Inr kp1"
    and "load_keypair_from_json lib fs (sort (glob fs d) ! j) = Inr kp2"
    and "pubkey_str lib kp1 = k" and "pubkey_str lib kp2 = k"
    and "\<forall>m<i. \<forall>kp. load_keypair_from_json lib fs (sort (glob fs d) ! m) = Inr kp
           \<longrightarrow> pubkey_str lib kp \<noteq> k"
  shows "length (list_public_keys_with_paths lib fs d) = length (sort (glob fs d))
     \<and> list_public_keys_with_paths lib fs d ! i = (path_str (sort (glob fs d) ! i), k)
     \<and> list_public_keys_with_paths lib fs d ! j = (path_str (sort (glob fs d) ! j), k)
     \<and> get (list_public_keys_with_paths lib fs d) k = Some (path_str (sort (glob fs d) ! i), k)"
proof -
  let ?c = "sort (glob fs d)"
  let ?r = "list_public_keys_with_paths lib fs d"
  have r: "?r = map (entry lib fs) ?c" by (rule list_eq)
  have i: "i < length ?c" using assms(2,3) by simp
  have ri: "?r ! i = (path_str (?c ! i), k)"
    using i assms(4,6) by (simp add: r entry_def)
  have rj: "?r ! j = (path_str (?c ! j), k)"
    using assms(3,5,7) by (simp add: r entry_def)
  have before: "\<not> (snd (?r ! m) = k \<and> \<not> is_error_marker (snd (?r ! m)))" if "m < i" for m
  proof (cases "load_keypair_from_json lib fs (?c ! m)")
    case (Inl e)
    with that i show ?thesis by (simp add: r entry_def is_error_marker_def)
  next
    case (Inr kp)
    with that i assms(8) show ?thesis by (simp add: r entry_def)
  qed
  have "find (\<lambda>e. snd e = k \<and> \<not> is_error_marker (snd e)) ?r = Some (?r ! i)"
    unfolding find_Some_iff
    using i before ri assms(1) by (intro exI[of _ i]) (simp add: r)
  with ri rj show ?thesis by (simp add: get_def r)
qed

theorem duplicate_keys_first_match_witness:
  "sort (glob nested_fs [''wallets'']) ! 1 = [''wallets'', ''k1.json'']
   \<and> sort (glob nested_fs [''wallets'']) ! 2 = [''wallets'', ''team'', ''k2.json'']
   \<and> (1::nat) < 2 \<and> 2 < length (sort (glob nested_fs [''wallets'']))
   \<and> load_keypair_from_json solders64 nested_fs [''wallets'', ''k1.json'']
       = Inr (map word_of_int (key_ints 64))
   \<and> load_keypair_from_json solders64 nested_fs [''wallets'', ''team'', ''k2.json'']
       = Inr (map word_of_int (key_ints 64))
   \<and> \<not> is_error_marker (pubkey_str solders64 (map word_of_int (key_ints 64)))
   \<and> list_public_keys_with_paths solders64 nested_fs [''wallets''] ! 1
       = (''wallets/k1.json'', pubkey_str solders64 (map word_of_int (key_ints 64)))
   \<and> list_public_keys_with_paths solders64 nested_fs [''wallets''] ! 2
       = (''wallets/team/k2.json'', pubkey_str solders64 (map word_of_int (key_ints 64)))
   \<and> get (list_public_keys_with_paths solders64 nested_fs [''wallets''])
         (pubkey_str solders64 (map word_of_int (key_ints 64)))
       = Some (''wallets/k1.json'', pubkey_str solders64 (map word_of_int (key_ints 64)))"
proof -
  let ?kp = "map word_of_int (key_ints 64) :: byte list"
  let ?c = "sort (glob nested_fs [''wallets''])"
  have h1: "\<not> is_error_marker (pubkey_str solders64 ?kp)" by (rule solders64_no_marker)
  have h2: "(1::nat) < 2" by simp
  have h3: "2 < length ?c" unfolding nth_cands_nested(4) by simp
  have l1: "load_keypair_from_json solders64 nested_fs [''wallets'', ''k1.json''] = Inr ?kp"
    by (simp add: load_key64 lookup_nested)
  have l2: "load_keypair_from_json solders64 nested_fs [''wallets'', ''team'', ''k2.json''] = Inr ?kp"
    by (simp add: load_key64 lookup_nested)
  have h4: "load_keypair_from_json solders64 nested_fs (?c ! 1) = Inr ?kp"
    by (simp only: nth_cands_nested l1)
  have h5: "load_keypair_from_json solders64 nested_fs (?c ! 2) = Inr ?kp"
    by (simp only: nth_cands_nested l2)
  have l0: "load_keypair_from_json solders64 nested_fs (?c ! 0)
      = Inl (ValueError (''Invalid key file format (expected array): '' @ path_str (?c ! 0)))"
    unfolding nth_cands_nested by (rule load_not_array) (rule lookup_nested)
  have h8: "\<forall>m<1. \<forall>kp. load_keypair_from_json solders64 nested_fs (?c ! m) = Inr kp
      \<longrightarrow> pubkey_str solders64 kp \<noteq> pubkey_str solders64 ?kp"
    using l0 by simp
  note t = duplicate_keys_first_match[OF h1 h2 h3 h4 h5 refl refl h8]
  from t have "list_public_keys_with_paths solders64 nested_fs [''wallets''] ! 1
       = (''wallets/k1.json'', pubkey_str solders64 ?kp)
     \<and> list_public_keys_with_paths solders64 nested_fs [''wallets''] ! 2
       = (''wallets/team/k2.json'', pubkey_str solders64 ?kp)
     \<and> get (list_public_keys_with_paths solders64 nested_fs [''wallets''])
         (pubkey_str solders64 ?kp) = Some (''wallets/k1.json'', pubkey_str solders64 ?kp)"
    by (simp only: nth_cands_nested path_strs)
  with h1 h2 h3 l1 l2 nth_cands_nested show ?thesis by blast
qed

text \<open>
  C8. The keypairs returned by \<open>load_all_wallets\<close> are exactly the keypairs of the files
  whose entry in \<open>list_public_keys_with_paths\<close> carries a public key and not an error
  marker, in the same order.
\<close>

theorem wallets_agree_with_listing:
  assumes "\<forall>kp. \<not> is_error_marker (pubkey_str lib kp)"
  shows "map Inr (fst (load_all_wallets lib fs d))
       = map (load_keypair_from_json lib fs)
           (filter (\<lambda>p. \<not> is_error_marker (snd (entry lib fs p))) (sort (glob fs d)))
     \<and> map (pubkey_str lib) (fst (load_all_wallets lib fs d))
       = map snd (filter (\<lambda>e. \<not> is_error_marker (snd e)) (list_public_keys_with_paths lib fs d))
     \<and> list_public_keys_with_paths lib fs d = map (entry lib fs) (sort (glob fs d))"
proof -
  let ?ok = "\<lambda>p. \<not> isl (load_keypair_from_json lib fs p)"
  have a: "map Inr (concat (map (loaded lib fs) ps))
       = map (load_keypair_from_json lib fs) (filter ?ok ps)" for ps
    by (induction ps) (auto simp: loaded_def split: sum.splits)
  have b: "map (pubkey_str lib) (concat (map (loaded lib fs) ps))
       = map snd (map (entry lib fs) (filter ?ok ps))" for ps
    by (induction ps) (auto simp: loaded_def entry_def split: sum.splits)
  have c: "filter (\<lambda>e. \<not> is_error_marker (snd e)) (map (entry lib fs) ps)
      = map (entry lib fs) (filter ?ok ps)" for ps
    by (simp add: filter_map o_def entry_marker[OF assms])
  show ?thesis
    by (simp add: load_all_eq list_eq a b c entry_marker[OF assms])
qed

theorem wallets_agree_with_listing_witness:
  "(\<forall>kp. \<not> is_error_marker (pubkey_str solders64 kp))
   \<and> fst (load_all_wallets solders64 wallets_fs [''wallets'']) = [map word_of_int (key_ints 64)]
   \<and> map (pubkey_str solders64) (fst (load_all_wallets solders64 wallets_fs [''wallets'']))
       = map snd (filter (\<lambda>e. \<not> is_error_marker (snd e))
           (list_public_keys_with_paths solders64 wallets_fs [''wallets'']))"
proof -
  have h: "\<forall>kp. \<not> is_error_marker (pubkey_str solders64 kp)"
    by (simp add: solders64_no_marker)
  note t = wallets_agree_with_listing[OF h, of wallets_fs "[''wallets'']"]
  from t have "map Inr (fst (load_all_wallets solders64 wallets_fs [''wallets'']))
      = [Inr (map word_of_int (key_ints 64)) :: exn + byte list]"
    by (simp add: glob_wallets sort_wallets markers_wallets load_key64 lookup_wallets)
  then have "fst (load_all_wallets solders64 wallets_fs [''wallets'']) = [map word_of_int (key_ints 64)]"
    by (auto simp: map_eq_Cons_conv)
  with t h show ?thesis by blast
qed

text \<open>
  C9. Only entries whose name matches \<^verbatim>\<open>*.json\<close>, at any depth under the directory, are
  candidates, and every such entry is one. A path whose last part does not end in
  \<^verbatim>\<open>.json\<close> is never visited by either function and gets no result entry, whatever it
  contains.
\<close>

theorem only_json_names_are_candidates:
  "(\<forall>p\<in>set (sort (glob fs d)). \<exists>rel. rel \<noteq> [] \<and> p = d @ rel \<and> json_name (last p))
   \<and> (\<forall>p. p \<noteq> [] \<and> \<not> json_name (last p) \<longrightarrow> p \<notin> set (sort (glob fs d)))
   \<and> list_public_keys_with_paths lib fs d = map (entry lib fs) (sort (glob fs d))
   \<and> (\<forall>e\<in>set (list_public_keys_with_paths lib fs d). json_name (fst e))
   \<and> load_all_wallets lib fs d =
       (concat (map (loaded lib fs) (sort (glob fs d))),
        concat (map (failure_line lib fs) (sort (glob fs d))))
   \<and> (\<forall>es rel nd. lookup fs d = Some (Dir es) \<and> node_at (Dir es) rel = Some nd \<and> rel \<noteq> []
         \<and> json_name (last rel) \<longrightarrow> d @ rel \<in> set (sort (glob fs d)))"
proof -
  have s: "\<exists>rel. rel \<noteq> [] \<and> p = d @ rel \<and> json_name (last p)" if "p \<in> set (glob fs d)" for p
    using glob_sound[OF that] by auto
  then have n: "p \<noteq> [] \<and> json_name (last p)" if "p \<in> set (glob fs d)" for p
    using that by fastforce
  have e: "json_name (fst (entry lib fs p))" if "p \<in> set (glob fs d)" for p
    using n[OF that] by (simp add: entry_fst json_name_path_str)
  show ?thesis
    using s n e glob_complete by (auto simp: list_eq load_all_eq)
qed

theorem only_json_names_are_candidates_witness:
  "node_at (Dir nested_entries) [''notes.txt''] = Some (key_file 64)
   \<and> [''wallets'', ''notes.txt''] \<noteq> [] \<and> \<not> json_name (last [''wallets'', ''notes.txt''])
   \<and> [''wallets'', ''notes.txt''] \<notin> set (sort (glob nested_fs [''wallets'']))
   \<and> lookup nested_fs [''wallets''] = Some (Dir nested_entries)
   \<and> node_at (Dir nested_entries) [''team'', ''k2.json''] = Some (key_file 64)
   \<and> [''team'', ''k2.json''] \<noteq> [] \<and> json_name (last [''team'', ''k2.json''])
   \<and> [''wallets''] @ [''team'', ''k2.json''] \<in> set (sort (glob nested_fs [''wallets'']))
   \<and> map fst (list_public_keys_with_paths solders64 nested_fs [''wallets''])
       = [''wallets/bad.json'', ''wallets/k1.json'', ''wallets/team/k2.json'',
          ''wallets/team/short.json'']"
proof -
  note t = only_json_names_are_candidates[of nested_fs "[''wallets'']" solders64]
  have a: "[''wallets'', ''notes.txt''] \<noteq> [] \<and> \<not> json_name (last [''wallets'', ''notes.txt''])"
    by (simp add: json_names)
  with t have b: "[''wallets'', ''notes.txt''] \<notin> set (sort (glob nested_fs [''wallets'']))"
    by blast
  have c: "lookup nested_fs [''wallets''] = Some (Dir nested_entries)
     \<and> node_at (Dir nested_entries) [''team'', ''k2.json''] = Some (key_file 64)
     \<and> [''team'', ''k2.json''] \<noteq> [] \<and> json_name (last [''team'', ''k2.json''])"
    by (intro conjI lookup_nested(1) node_at_nested(2)) (simp_all add: json_names)
  with t have d: "[''wallets''] @ [''team'', ''k2.json''] \<in> set (sort (glob nested_fs [''wallets'']))"
    by blast
  from t have "list_public_keys_with_paths solders64 nested_fs [''wallets'']
      = map (entry solders64 nested_fs) (sort (glob nested_fs [''wallets'']))"
    by blast
  then have e: "map fst (list_public_keys_with_paths solders64 nested_fs [''wallets''])
       = [''wallets/bad.json'', ''wallets/k1.json'', ''wallets/team/k2.json'',
          ''wallets/team/short.json'']"
    by (simp add: cands_nested entry_fst path_strs)
  from a b c d e node_at_nested(1) show ?thesis by blast
qed

text \<open>
  C10, as stated: for every directory path whose string form does not begin with \<^verbatim>\<open>~\<close>
  the two modules return the same list. It fails for the current directory \<^verbatim>\<open>.\<close> when a
  candidate's name begins with \<^verbatim>\<open>~\<close>: the macOS module expands every candidate path
  again and raises inside the \<^verbatim>\<open>try\<close>.
\<close>

theorem mac_listing_tilde_counterexample:
  "take 1 (path_str []) \<noteq> ''~''
   \<and> list_public_keys_with_paths solders64 tilde_fs []
       = [(''~a.json'', pubkey_str solders64 (map word_of_int (key_ints 64)))]
   \<and> list_public_keys_with_paths_mac solders64 tilde_fs []
       = Inr [(''~a.json'', ''<error: Could not determine home directory.>'')]
   \<and> list_public_keys_with_paths_mac solders64 tilde_fs []
       \<noteq> Inr (list_public_keys_with_paths solders64 tilde_fs [])"
proof -
  have "is_error_marker ''<error: Could not determine home directory.>''"
    by (simp add: is_error_marker_def)
  then have "pubkey_str solders64 (map word_of_int (key_ints 64))
      \<noteq> ''<error: Could not determine home directory.>''"
    using solders64_no_marker[of "map word_of_int (key_ints 64)"] by metis
  then show ?thesis
    by (simp add: mac_tilde_value main_tilde_value path_str_def)
qed

text \<open>
  C10, amended: when neither the directory path nor any candidate path under it has a
  first part beginning with \<^verbatim>\<open>~\<close>, and every candidate exists (none is a dangling
  symbolic link), \<open>list_public_keys_with_paths\<close> of the macOS module returns the same list
  as that of \<^verbatim>\<open>wallet_utils.py\<close>.
\<close>

theorem mac_listing_equivalent:
  assumes "\<forall>p\<in>set (d # glob fs d). \<not> tilde p"
    and "\<forall>p\<in>set (glob fs d). exists fs p"
  shows "list_public_keys_with_paths_mac lib fs d = Inr (list_public_keys_with_paths lib fs d)"
proof -
  have "\<forall>p\<in>set (sort (glob fs d)). \<not> tilde p \<and> exists fs p"
    using assms by simp
  then have "list_loop_mac lib fs (sort (glob fs d)) [] = list_loop lib fs (sort (glob fs d)) []"
    by (rule list_loop_mac_eq)
  moreover have "expanduser fs d = Inr d" using assms(1) by (simp add: expanduser_id)
  ultimately show ?thesis
    by (simp add: list_public_keys_with_paths_mac_def list_public_keys_with_paths_def)
qed

theorem mac_listing_equivalent_witness:
  "\<not> tilde [''wallets''] \<and> \<not> tilde [''wallets'', ''a.json'']
   \<and> \<not> tilde [''wallets'', ''b.json''] \<and> \<not> tilde [''wallets'', ''c.json'']
   \<and> exists wallets_fs [''wallets'', ''a.json''] \<and> exists wallets_fs [''wallets'', ''b.json'']
   \<and> exists wallets_fs [''wallets'', ''c.json'']
   \<and> list_public_keys_with_paths_mac solders64 wallets_fs [''wallets'']
       = Inr (list_public_keys_with_paths solders64 wallets_fs [''wallets''])"
proof -
  have h1: "\<forall>p\<in>set ([''wallets''] # glob wallets_fs [''wallets'']). \<not> tilde p"
    by (simp add: glob_wallets tilde_wallets)
  have h2: "\<forall>p\<in>set (glob wallets_fs [''wallets'']). exists wallets_fs p"
    by (simp add: glob_wallets exists_wallets)
  from mac_listing_equivalent[OF h1 h2, of solders64] tilde_wallets exists_wallets
  show ?thesis by blast
qed

text \<open>
  On a dangling symbolic link both modules record a failure, with different messages:
  the macOS module tests \<^verbatim>\<open>path.exists()\<close> first.
\<close>

lemma mac_dangling_differs:
  "list_public_keys_with_paths_mac lib dangling_fs [''wallets'']
     = Inr [(''wallets/gone.json'', ''<error: Wallet file not found: wallets/gone.json>'')]
   \<and> list_public_keys_with_paths lib dangling_fs [''wallets'']
     = [(''wallets/gone.json'',
         ''<error: [Errno 2] No such file or directory: '' @ py_repr ''wallets/gone.json'' @ ''>'')]"
proof -
  have g: "glob dangling_fs [''wallets''] = [[''wallets'', ''gone.json'']]"
    by (simp add: glob_def lookup_def dangling_fs_def json_name_def)
  have l: "lookup dangling_fs [''wallets'', ''gone.json''] = Some Dangling"
    by (simp add: lookup_def dangling_fs_def)
  have e: "exists dangling_fs [''wallets'']"
    by (simp add: exists_def lookup_def dangling_fs_def)
  have m: "load_keypair_from_json_mac lib dangling_fs [''wallets'', ''gone.json'']
      = Inl (FileNotFoundError ''Wallet file not found: wallets/gone.json'')"
    by (simp add: load_keypair_from_json_mac_def expanduser_def exists_def l path_strs)
  have n: "load_keypair_from_json lib dangling_fs [''wallets'', ''gone.json'']
      = Inl (FileNotFoundError (''[Errno 2] No such file or directory: ''
          @ py_repr ''wallets/gone.json''))"
    by (simp add: load_keypair_from_json_def read_json_def l path_strs)
  show ?thesis
    by (simp add: list_public_keys_with_paths_mac_def expanduser_def e g m list_eq entry_def n
        path_strs)
qed

end
